theory Spec2Isabelle
  imports Main
begin

section \<open>Data model\<close>

text \<open>
  The table \<open>users\<close>, as the migration creates it and as \<open>UserAttributes\<close>
  (src/types/user.types.ts) types it. Dates are milliseconds since the epoch. A row whose
  \<open>deleted_on\<close> is set is soft-deleted: the model is declared \<open>paranoid: true\<close>
  (src/db/models/user.model.ts), so queries through the model skip it.
\<close>

record user_row =
  u_id :: int
  u_name :: string
  u_email :: string
  u_mobile :: string
  u_suspend_status :: bool
  u_updated_by :: "int option"
  u_created_by :: "int option"
  u_deleted_by :: "int option"
  u_created_on :: nat
  u_updated_on :: nat
  u_deleted_on :: "nat option"

text \<open>
  \<open>UserData\<close> of the create workflow. \<open>createUserActivity\<close> is typed with
  \<open>UserCreationAttributes\<close>, but destructures \<open>name\<close>, \<open>email\<close> and \<open>mobile\<close> only,
  and passes only these on.
\<close>

record user_data =
  name :: string
  email :: string
  mobile :: string

text \<open>
  \<open>UserUpdateAttributes\<close>: every column but \<open>id\<close> and the three dates, each optional.
  The \<open>_by\<close> columns are \<open>number | null\<close>, hence an option inside the option.
\<close>

record user_update =
  upd_name :: "string option"
  upd_email :: "string option"
  upd_mobile :: "string option"
  upd_suspend_status :: "bool option"
  upd_updated_by :: "int option option"
  upd_created_by :: "int option option"
  upd_deleted_by :: "int option option"

text \<open>What \<open>findOne\<close> returns for \<open>attributes: ['id', 'mobile']\<close>.\<close>

record id_mobile =
  d_id :: int
  d_mobile :: string

text \<open>
  The object \<open>{id, name, email, mobile}\<close>: what \<open>createUserActivity\<close> returns, and what
  \<open>findOne\<close> returns for \<open>attributes: ['id', 'mobile', 'name', 'email']\<close>.
\<close>

record user_view =
  v_id :: int
  v_name :: string
  v_email :: string
  v_mobile :: string

record UpdateUserParams =
  p_id :: int
  p_userData :: user_update

record UpdateUserResult =
  r_id :: int
  r_success :: bool

text \<open>\<open>GetAllUsersParams\<close>: both fields may be left out.\<close>

record GetAllUsersParams =
  limit :: "nat option"
  offset :: "nat option"

text \<open>
  A thrown JavaScript error, as far as the code looks at it: \<open>name\<close> and \<open>message\<close>,
  and the \<open>cause\<close> that the failures of the execution engine carry.
\<close>

datatype js_error =
  Error (err_name: string) (err_message: string) (err_cause: "js_error option")

text \<open>The calls a workflow makes through its activity proxy, with their arguments.\<close>

datatype activity_call =
    CheckDuplicateByMobile string
  | CreateUser user_data
  | UpdateUser UpdateUserParams
  | GetUser int
  | GetAllUsers GetAllUsersParams

text \<open>What \<open>client.workflow.start\<close> is given.\<close>

record submission =
  s_workflowType :: string
  s_taskQueue :: string
  s_workflowId :: string

section \<open>The world the code runs in\<close>

text \<open>
  Everything outside the repository that the code reads or writes:
  \<^item> \<open>users\<close>: the rows of the table, in the order a scan of the table yields them;
  \<^item> \<open>users_id_seq\<close>: the sequence behind the auto-incremented \<open>id\<close>;
  \<^item> \<open>now\<close>: the clock (\<open>Date.now()\<close>, and the timestamps Sequelize writes);
  \<^item> \<open>faults\<close>: what the database does with the coming queries, one entry for each:
    \<open>Some e\<close> when the query fails with \<open>e\<close> (connection lost, constraint violated by a
    concurrent writer, validation), \<open>None\<close> when it goes through; an empty list is no
    failure at all;
  \<^item> \<open>retries\<close>: how many more attempts the execution engine makes on an activity that
    has failed, before the run is given up and the failure handed to the workflow;
  \<^item> \<open>history\<close>: the activity calls the execution engine has recorded;
  \<^item> \<open>started\<close>: the workflows the client has submitted.

  A computation takes the world and returns its outcome (\<open>Inl\<close> a thrown error) and the
  world it leaves. Log statements have no effect on any result and are left out.
\<close>

record world =
  users :: "user_row list"
  users_id_seq :: int
  now :: nat
  faults :: "js_error option list"
  retries :: nat
  history :: "activity_call list"
  started :: "submission list"

type_synonym 'a io = "world \<Rightarrow> (js_error + 'a) \<times> world"

definition return_io :: "'a \<Rightarrow> 'a io" where
  "return_io x w = (Inr x, w)"

text \<open>\<open>const x = await m; ...\<close>: a rejected promise ends the function with the error.\<close>

definition await :: "'a io \<Rightarrow> ('a \<Rightarrow> 'b io) \<Rightarrow> 'b io" where
  "await m f w = (case m w of (Inl e, w') \<Rightarrow> (Inl e, w') | (Inr x, w') \<Rightarrow> f x w')"

section \<open>The store: the Sequelize model \<open>User\<close>\<close>

text \<open>
  Sequelize and Postgres are not part of the repository. The definitions below give the
  behaviour of the four model methods the activities call, for the options the sources
  pass and the model declares: \<open>paranoid: true\<close> (only rows with \<open>deleted_on\<close> unset are
  read or updated), \<open>timestamps: true\<close> with \<open>updatedAt: 'updated_on'\<close> (every write stamps
  the clock), the primary key on \<open>id\<close>, the column defaults of the migration.
\<close>

definition live :: "user_row \<Rightarrow> bool" where
  "live r \<longleftrightarrow> u_deleted_on r = None"

definition query :: "'a io \<Rightarrow> 'a io" where
  "query run w =
     (case faults w of
        [] \<Rightarrow> run w
      | None # fs \<Rightarrow> run (w\<lparr>faults := fs\<rparr>)
      | Some e # fs \<Rightarrow> (Inl e, w\<lparr>faults := fs\<rparr>))"

text \<open>\<open>User.findOne({attributes, where, raw: true})\<close>: the first live row that matches.\<close>

definition User_findOne :: "(user_row \<Rightarrow> 'a) \<Rightarrow> (user_row \<Rightarrow> bool) \<Rightarrow> 'a option io" where
  "User_findOne attributes cond =
     query (\<lambda>w. (Inr (map_option attributes (find (\<lambda>r. live r \<and> cond r) (users w))), w))"

definition SequelizeUniqueConstraintError :: js_error where
  "SequelizeUniqueConstraintError =
     Error ''SequelizeUniqueConstraintError'' ''Validation error'' None"

text \<open>
  \<open>User.create({name, email, mobile})\<close>: the id is drawn from the sequence (which moves on
  even when the insert fails), the other columns take their defaults, both timestamps the
  clock. An id already in the table violates the primary key.
\<close>

definition User_create :: "user_data \<Rightarrow> user_row io" where
  "User_create v =
     query (\<lambda>w.
       let i = users_id_seq w;
           w' = w\<lparr>users_id_seq := i + 1\<rparr>;
           row = \<lparr>u_id = i, u_name = name v, u_email = email v, u_mobile = mobile v,
                  u_suspend_status = False, u_updated_by = None, u_created_by = None,
                  u_deleted_by = None, u_created_on = now w, u_updated_on = now w,
                  u_deleted_on = None\<rparr>
       in if i \<in> set (map u_id (users w)) then (Inl SequelizeUniqueConstraintError, w')
          else (Inr row, w'\<lparr>users := users w @ [row]\<rparr>))"

definition set_field :: "'a option \<Rightarrow> 'a \<Rightarrow> 'a" where
  "set_field new old = (case new of None \<Rightarrow> old | Some x \<Rightarrow> x)"

definition assign :: "user_update \<Rightarrow> user_row \<Rightarrow> user_row" where
  "assign v r =
     r\<lparr>u_name := set_field (upd_name v) (u_name r),
       u_email := set_field (upd_email v) (u_email r),
       u_mobile := set_field (upd_mobile v) (u_mobile r),
       u_suspend_status := set_field (upd_suspend_status v) (u_suspend_status r),
       u_updated_by := set_field (upd_updated_by v) (u_updated_by r),
       u_created_by := set_field (upd_created_by v) (u_created_by r),
       u_deleted_by := set_field (upd_deleted_by v) (u_deleted_by r)\<rparr>"

text \<open>
  \<open>User.update(values, {where: {id}})\<close>. With no column to set (Sequelize has only
  \<open>updated_on\<close> left to write) no statement is sent and the answer is 0 rows. Otherwise
  every live row with that id gets the given columns and \<open>updated_on\<close>; Postgres writes
  the new version of a row behind the rows of the table, so a scan yields the updated
  rows last; the answer is the number of rows affected.
\<close>

definition no_values :: "user_update \<Rightarrow> bool" where
  "no_values v \<longleftrightarrow>
     upd_name v = None \<and> upd_email v = None \<and> upd_mobile v = None \<and>
     upd_suspend_status v = None \<and> upd_updated_by v = None \<and> upd_created_by v = None \<and>
     upd_deleted_by v = None"

definition User_update :: "user_update \<Rightarrow> int \<Rightarrow> nat io" where
  "User_update v i =
     (if no_values v then return_io 0
      else
        query (\<lambda>w.
          let hit = (\<lambda>r. live r \<and> u_id r = i);
              affected = filter hit (users w)
          in (Inr (length affected),
              w\<lparr>users := filter (\<lambda>r. \<not> hit r) (users w) @
                           map (\<lambda>r. (assign v r)\<lparr>u_updated_on := now w\<rparr>) affected\<rparr>)))"

text \<open>
  \<open>User.findAll({limit, offset})\<close>: no \<open>order\<close> is passed, so the rows come in the order
  of the scan.
\<close>

definition User_findAll :: "nat \<Rightarrow> nat \<Rightarrow> user_row list io" where
  "User_findAll lim off =
     query (\<lambda>w. (Inr (take lim (drop off (filter live (users w)))), w))"

section \<open>Activities (src/temporal/activities/user/activities.ts)\<close>

definition checkDuplicateByMobileActivity :: "string \<Rightarrow> id_mobile option io" where
  "checkDuplicateByMobileActivity mobile' =
     await (User_findOne (\<lambda>r. \<lparr>d_id = u_id r, d_mobile = u_mobile r\<rparr>)
                         (\<lambda>r. u_mobile r = mobile'))
       (\<lambda>user. return_io user)"

text \<open>The \<open>catch\<close> logs and throws the error again.\<close>

definition createUserActivity :: "user_data \<Rightarrow> user_view io" where
  "createUserActivity userData w =
     (case User_create \<lparr>name = name userData, email = email userData,
                        mobile = mobile userData\<rparr> w of
        (Inr user, w') \<Rightarrow>
          (Inr \<lparr>v_id = u_id user, v_name = u_name user, v_email = u_email user,
                v_mobile = u_mobile user\<rparr>, w')
      | (Inl error, w') \<Rightarrow> (Inl error, w'))"

definition updateUserActivity :: "UpdateUserParams \<Rightarrow> UpdateUserResult io" where
  "updateUserActivity params w =
     (case User_update (p_userData params) (p_id params) w of
        (Inr _, w') \<Rightarrow> (Inr \<lparr>r_id = p_id params, r_success = True\<rparr>, w')
      | (Inl error, w') \<Rightarrow> (Inl error, w'))"

definition getUserActivity :: "int \<Rightarrow> user_view option io" where
  "getUserActivity i =
     await (User_findOne (\<lambda>r. \<lparr>v_id = u_id r, v_name = u_name r, v_email = u_email r,
                                v_mobile = u_mobile r\<rparr>)
                         (\<lambda>r. u_id r = i))
       (\<lambda>user. return_io user)"

definition getAllUsersActivity :: "GetAllUsersParams \<Rightarrow> user_row list io" where
  "getAllUsersActivity params =
     (let lim = (case limit params of None \<Rightarrow> 100 | Some l \<Rightarrow> l);
          off = (case offset params of None \<Rightarrow> 0 | Some k \<Rightarrow> k)
      in await (User_findAll lim off) (\<lambda>users'. return_io users'))"

section \<open>Workflows (src/temporal/workflows/user)\<close>

text \<open>
  A workflow reaches an activity only through the proxy that \<open>proxyActivities\<close> hands
  out. The engine records the call and runs the activity. The workflows pass
  \<open>startToCloseTimeout\<close> and no \<open>retry\<close>, so the engine's own policy applies: an attempt
  that fails is followed by another one, on the world the failed one has left. That
  policy sets no limit: the attempts go on until one succeeds or the run is given up, and
  \<open>retries\<close> is the number of further attempts made until then. A failure that outlasts
  them reaches the workflow as an \<open>ActivityFailure\<close> whose cause is the activity's error
  as the engine carries it: an \<open>ApplicationFailure\<close> with the error's message.
\<close>

fun attempts :: "nat \<Rightarrow> 'a io \<Rightarrow> 'a io" where
  "attempts 0 activity w = activity w"
| "attempts (Suc n) activity w =
     (case activity w of
        (Inr x, w') \<Rightarrow> (Inr x, w')
      | (Inl e, w') \<Rightarrow> attempts n activity w')"

definition ApplicationFailure :: "js_error \<Rightarrow> js_error" where
  "ApplicationFailure e = Error ''ApplicationFailure'' (err_message e) None"

definition ActivityFailure :: "js_error \<Rightarrow> js_error" where
  "ActivityFailure cause = Error ''ActivityFailure'' ''Activity task failed'' (Some cause)"

definition proxyActivities :: "activity_call \<Rightarrow> 'a io \<Rightarrow> 'a io" where
  "proxyActivities call activity w =
     (case attempts (retries w) activity (w\<lparr>history := history w @ [call]\<rparr>) of
        (Inr x, w') \<Rightarrow> (Inr x, w')
      | (Inl e, w') \<Rightarrow> (Inl (ActivityFailure (ApplicationFailure e)), w'))"

text \<open>\<open>WorkflowResult\<close> of createUser.workflow.ts: \<open>id\<close> and \<open>user\<close> are optional.\<close>

record CreateUserResult =
  c_code :: nat
  c_message :: string
  c_id :: "int option"
  c_user :: "user_view option"

definition createUserWorkflow :: "user_data \<Rightarrow> CreateUserResult io" where
  "createUserWorkflow userData =
     await (proxyActivities (CheckDuplicateByMobile (mobile userData))
              (checkDuplicateByMobileActivity (mobile userData)))
       (\<lambda>duplicate.
          case duplicate of
            Some dup \<Rightarrow>
              return_io \<lparr>c_code = 409,
                         c_message = ''Duplicate mobile number found. Possible fraud.'',
                         c_id = Some (d_id dup), c_user = None\<rparr>
          | None \<Rightarrow>
              await (proxyActivities (CreateUser userData) (createUserActivity userData))
                (\<lambda>result.
                   return_io \<lparr>c_code = 201,
                              c_message = ''Your account created successfully.'',
                              c_id = Some (v_id result), c_user = Some result\<rparr>))"

record UpdateUserWorkflowResult =
  uw_code :: nat
  uw_success :: bool
  uw_id :: int

definition updateUserWorkflow :: "UpdateUserParams \<Rightarrow> UpdateUserWorkflowResult io" where
  "updateUserWorkflow params =
     (let call = \<lparr>p_id = p_id params, p_userData = p_userData params\<rparr>
      in await (proxyActivities (UpdateUser call) (updateUserActivity call))
           (\<lambda>result.
              return_io \<lparr>uw_code = 200, uw_success = r_success result, uw_id = r_id result\<rparr>))"

text \<open>\<open>WorkflowResult\<close> of getUser.workflow.ts: \<open>user\<close> is the record or \<open>null\<close>.\<close>

record GetUserResult =
  g_code :: nat
  g_message :: "string option"
  g_user :: "user_view option"

definition getUserWorkflow :: "int \<Rightarrow> GetUserResult io" where
  "getUserWorkflow i =
     await (proxyActivities (GetUser i) (getUserActivity i))
       (\<lambda>user.
          case user of
            None \<Rightarrow>
              return_io \<lparr>g_code = 404, g_message = Some ''User not found'', g_user = None\<rparr>
          | Some u \<Rightarrow> return_io \<lparr>g_code = 200, g_message = None, g_user = Some u\<rparr>)"

record GetAllUsersResult =
  l_code :: nat
  l_users :: "user_row list"

definition getAllUsersWorkflow :: "GetAllUsersParams \<Rightarrow> GetAllUsersResult io" where
  "getAllUsersWorkflow params =
     (let lim = (case limit params of None \<Rightarrow> 100 | Some l \<Rightarrow> l);
          off = (case offset params of None \<Rightarrow> 0 | Some k \<Rightarrow> k);
          call = \<lparr>limit = Some lim, offset = Some off\<rparr>
      in await (proxyActivities (GetAllUsers call) (getAllUsersActivity call))
           (\<lambda>users'. return_io \<lparr>l_code = 200, l_users = users'\<rparr>))"

section \<open>Dispatch (src/temporal/clients/user.client.js)\<close>

text \<open>
  A number inside a template literal: its decimal digits, with a minus sign when negative
  (the numbers here are ids and millisecond timestamps, far below the \<open>10^21\<close> from which
  JavaScript switches to exponent notation).
\<close>

definition digit :: "nat \<Rightarrow> char" where
  "digit d = char_of (48 + d)"

function show_nat :: "nat \<Rightarrow> string" where
  "show_nat n = (if n < 10 then [digit n] else show_nat (n div 10) @ [digit (n mod 10)])"
  by pat_completeness auto
termination
  by (relation "measure (\<lambda>n. n)") auto

declare show_nat.simps [simp del]

definition show_int :: "int \<Rightarrow> string" where
  "show_int i = (if i < 0 then ''-'' @ show_nat (nat (- i)) else show_nat (nat i))"

text \<open>
  \<open>client.workflow.start(type, {args, taskQueue, workflowId})\<close> followed by
  \<open>handle.result()\<close>: the submission is noted and the workflow runs. The result of a
  workflow that completes is handed back; for a workflow that fails, \<open>handle.result()\<close>
  rejects with a \<open>WorkflowFailedError\<close> whose cause is the failure. The task queue
  \<open>USER_QUEUE\<close> comes from a configuration file and is a parameter here. Reaching the
  engine (\<open>getClient\<close>) is taken to succeed.
\<close>

definition WorkflowFailedError :: "js_error \<Rightarrow> js_error" where
  "WorkflowFailedError cause =
     Error ''WorkflowFailedError'' ''Workflow execution failed'' (Some cause)"

definition workflow_start :: "string \<Rightarrow> string \<Rightarrow> string \<Rightarrow> 'a io \<Rightarrow> 'a io" where
  "workflow_start workflowType taskQueue workflowId run w =
     (case run (w\<lparr>started := started w @
                  [\<lparr>s_workflowType = workflowType, s_taskQueue = taskQueue,
                    s_workflowId = workflowId\<rparr>]\<rparr>) of
        (Inr result, w') \<Rightarrow> (Inr result, w')
      | (Inl failure, w') \<Rightarrow> (Inl (WorkflowFailedError failure), w'))"

definition startCreateUser :: "string \<Rightarrow> user_data \<Rightarrow> CreateUserResult io" where
  "startCreateUser USER_QUEUE userData w =
     (let workflowId = ''create-user-'' @ mobile userData @ ''-'' @ show_nat (now w)
      in workflow_start ''createUserWorkflow'' USER_QUEUE workflowId
           (createUserWorkflow userData) w)"

definition startUpdateUser :: "string \<Rightarrow> UpdateUserParams \<Rightarrow> UpdateUserWorkflowResult io" where
  "startUpdateUser USER_QUEUE params w =
     (let workflowId = ''update-user-'' @ show_int (p_id params) @ ''-'' @ show_nat (now w)
      in workflow_start ''updateUserWorkflow'' USER_QUEUE workflowId
           (updateUserWorkflow \<lparr>p_id = p_id params, p_userData = p_userData params\<rparr>) w)"

definition startGetUser :: "string \<Rightarrow> int \<Rightarrow> GetUserResult io" where
  "startGetUser USER_QUEUE i w =
     (let workflowId = ''get-user-'' @ show_int i @ ''-'' @ show_nat (now w)
      in workflow_start ''getUserWorkflow'' USER_QUEUE workflowId (getUserWorkflow i) w)"

definition startGetAllUsers :: "string \<Rightarrow> GetAllUsersParams \<Rightarrow> GetAllUsersResult io" where
  "startGetAllUsers USER_QUEUE params w =
     (let lim = (case limit params of None \<Rightarrow> 100 | Some l \<Rightarrow> l);
          off = (case offset params of None \<Rightarrow> 0 | Some k \<Rightarrow> k);
          workflowId = ''get-all-users-'' @ show_nat (now w)
      in workflow_start ''getAllUsersWorkflow'' USER_QUEUE workflowId
           (getAllUsersWorkflow \<lparr>limit = Some lim, offset = Some off\<rparr>) w)"

text \<open>
  The format the specification gives for a workflow id,
  \<open>"{operation}-{naturalKeyOrId}-{submissionTimestamp}"\<close>, and a test whether a string has
  it for some key.
\<close>

definition spec_workflow_id :: "string \<Rightarrow> string \<Rightarrow> nat \<Rightarrow> string" where
  "spec_workflow_id operation naturalKeyOrId submissionTimestamp =
     operation @ ''-'' @ naturalKeyOrId @ ''-'' @ show_nat submissionTimestamp"

definition in_spec_format :: "string \<Rightarrow> nat \<Rightarrow> string \<Rightarrow> bool" where
  "in_spec_format operation submissionTimestamp workflowId \<longleftrightarrow>
     (let pre = operation @ ''-''; suf = ''-'' @ show_nat submissionTimestamp
      in length pre + length suf \<le> length workflowId \<and>
         take (length pre) workflowId = pre \<and>
         drop (length workflowId - length suf) workflowId = suf)"

section \<open>The HTTP controller's \<open>create\<close>\<close>

text \<open>
  \<open>res.status(n).json({...})\<close> or \<open>next(err)\<close>. A property whose value is \<open>undefined\<close>
  does not appear in the JSON.
\<close>

datatype json_value = JString string | JNumber int | JUser user_view

datatype response = Json nat "(string \<times> json_value) list" | Next js_error

definition optional :: "string \<Rightarrow> ('a \<Rightarrow> json_value) \<Rightarrow> 'a option \<Rightarrow> (string \<times> json_value) list" where
  "optional key f v = (case v of None \<Rightarrow> [] | Some x \<Rightarrow> [(key, f x)])"

definition messagesMap :: "nat \<Rightarrow> string option" where
  "messagesMap = [201 \<mapsto> ''Your account created successfully.'', 409 \<mapsto> ''Duplicate'',
                  400 \<mapsto> ''Bad Request'']"

text \<open>
  The body of \<open>create\<close> after \<open>await startCreateUser(req.body)\<close>, as a function of what
  that call gave: a result, or a thrown error (the \<open>catch\<close>).
\<close>

definition create :: "js_error + CreateUserResult \<Rightarrow> response" where
  "create outcome =
     (case outcome of
        Inr result \<Rightarrow>
          if c_code result = 409 then
            Json 409 ([(''message'', JString (c_message result))] @
                      optional ''id'' JNumber (c_id result))
          else if c_code result = 400 then
            Json 400 [(''message'', JString (c_message result))]
          else
            Json 201 ([(''message'', JString (c_message result))] @
                      optional ''id'' JNumber (c_id result) @
                      optional ''user'' JUser (c_user result))
      | Inl err \<Rightarrow>
          if err_name err = ''SequelizeUniqueConstraintError'' then
            Json 409 (optional ''message'' JString (messagesMap 409) @
                      [(''error'', JString (err_message err))])
          else Next err)"

section \<open>Notions used in the statements\<close>

text \<open>The database lets the next \<open>n\<close> queries through.\<close>

definition answers :: "nat \<Rightarrow> world \<Rightarrow> bool" where
  "answers n w \<longleftrightarrow> list_all (\<lambda>f. f = None) (take n (faults w))"

text \<open>Sample data: the payload of the specification's scenario and a table of two users.\<close>

definition john :: user_data where
  "john = \<lparr>name = ''John Doe'', email = ''john@x.com'', mobile = ''1234567890''\<rparr>"

definition user_one :: user_row where
  "user_one =
     \<lparr>u_id = 1, u_name = ''User One'', u_email = ''user1@example.com'',
      u_mobile = ''1111111111'', u_suspend_status = False, u_updated_by = None,
      u_created_by = None, u_deleted_by = None, u_created_on = 10, u_updated_on = 10,
      u_deleted_on = None\<rparr>"

definition user_two :: user_row where
  "user_two =
     \<lparr>u_id = 2, u_name = ''User Two'', u_email = ''user2@example.com'',
      u_mobile = ''2222222222'', u_suspend_status = False, u_updated_by = None,
      u_created_by = None, u_deleted_by = None, u_created_on = 20, u_updated_on = 20,
      u_deleted_on = None\<rparr>"

definition two_users :: world where
  "two_users =
     \<lparr>users = [user_one, user_two], users_id_seq = 3, now = 1000, faults = [],
      retries = 2, history = [], started = []\<rparr>"

definition rename :: user_update where
  "rename =
     \<lparr>upd_name = Some ''Updated User'', upd_email = None, upd_mobile = None,
      upd_suspend_status = None, upd_updated_by = None, upd_created_by = None,
      upd_deleted_by = None\<rparr>"

definition no_change :: user_update where
  "no_change =
     \<lparr>upd_name = None, upd_email = None, upd_mobile = None, upd_suspend_status = None,
      upd_updated_by = None, upd_created_by = None, upd_deleted_by = None\<rparr>"

definition connection_lost :: js_error where
  "connection_lost = Error ''SequelizeConnectionError'' ''Connection terminated'' None"

text \<open>The row \<open>User.create\<close> inserts in a world: the next id of the sequence, the clock.\<close>

definition new_row :: "user_data \<Rightarrow> world \<Rightarrow> user_row" where
  "new_row v w =
     \<lparr>u_id = users_id_seq w, u_name = name v, u_email = email v, u_mobile = mobile v,
      u_suspend_status = False, u_updated_by = None, u_created_by = None,
      u_deleted_by = None, u_created_on = now w, u_updated_on = now w,
      u_deleted_on = None\<rparr>"


definition unordered :: world where
  "unordered = two_users\<lparr>users := [user_two, user_one]\<rparr>"

text \<open>What \<open>User.update\<close> makes of a row it updates at time \<open>t\<close>, and of the table.\<close>

definition hit :: "int \<Rightarrow> user_row \<Rightarrow> bool" where
  "hit i r \<longleftrightarrow> live r \<and> u_id r = i"

definition stamped :: "user_update \<Rightarrow> nat \<Rightarrow> user_row \<Rightarrow> user_row" where
  "stamped v t r = (assign v r)\<lparr>u_updated_on := t\<rparr>"

definition updated :: "user_update \<Rightarrow> int \<Rightarrow> nat \<Rightarrow> user_row list \<Rightarrow> user_row list" where
  "updated v i t rows =
     (if no_values v then rows
      else filter (\<lambda>r. \<not> hit i r) rows @ map (stamped v t) (filter (hit i) rows))"

section \<open>Lemmas about the store and the activities\<close>

lemma faults_same: "faults w = fs \<Longrightarrow> w\<lparr>faults := fs\<rparr> = w"
  by simp

lemma query_answers:
  "answers (Suc n) w \<Longrightarrow> query run w = run (w\<lparr>faults := tl (faults w)\<rparr>)"
  by (auto simp: answers_def query_def faults_same split: list.splits option.splits)

lemma answers_tl:
  "answers (Suc n) w \<Longrightarrow> faults w' = tl (faults w) \<Longrightarrow> answers n w'"
  by (cases "faults w") (auto simp: answers_def)

lemma answers_less:
  "answers (Suc n) w \<Longrightarrow> faults w' = faults w \<Longrightarrow> answers n w'"
proof -
  assume a: "answers (Suc n) w" and f: "faults w' = faults w"
  have "set (take n (faults w)) \<subseteq> set (take (Suc n) (faults w))"
    by (rule set_take_subset_set_take) simp
  with a f show ?thesis
    by (auto simp: answers_def list_all_iff)
qed

lemma answers_history [simp]: "answers n (w\<lparr>history := h\<rparr>) = answers n w"
  by (simp add: answers_def)

lemma answers_started [simp]: "answers n (w\<lparr>started := h\<rparr>) = answers n w"
  by (simp add: answers_def)

lemma answers_now [simp]: "answers n (w\<lparr>now := t\<rparr>) = answers n w"
  by (simp add: answers_def)

lemma answers_retries [simp]: "answers n (w\<lparr>retries := k\<rparr>) = answers n w"
  by (simp add: answers_def)

lemma query_Inl:
  "(\<And>w'. \<exists>x w''. run w' = (Inr x, w'')) \<Longrightarrow> fst (query run w) = Inl e \<Longrightarrow>
   \<exists>fs. faults w = Some e # fs \<and> faults (snd (query run w)) = fs"
  apply (auto simp: query_def split: list.splits option.splits)
  apply (metis Inl_Inr_False fst_conv)+
  done

lemma await_return [simp]: "await m return_io = m"
  by (auto simp: await_def return_io_def fun_eq_iff split: prod.splits sum.splits)

lemma User_findOne_answers:
  "answers (Suc n) w \<Longrightarrow>
   User_findOne attributes cond w =
     (Inr (map_option attributes (find (\<lambda>r. live r \<and> cond r) (users w))),
      w\<lparr>faults := tl (faults w)\<rparr>)"
  by (simp add: User_findOne_def query_answers) simp

lemma User_findOne_Inl:
  "fst (User_findOne attributes cond w) = Inl e \<Longrightarrow>
   \<exists>fs. faults w = Some e # fs \<and> faults (snd (User_findOne attributes cond w)) = fs"
  unfolding User_findOne_def by (rule query_Inl) auto

lemma User_findOne_users:
  "users (snd (User_findOne attributes cond w)) = users w"
  by (simp add: User_findOne_def query_def split: list.splits option.splits)

lemma User_findOne_history:
  "history (snd (User_findOne attributes cond w)) = history w"
  by (simp add: User_findOne_def query_def split: list.splits option.splits)

lemma User_findOne_started:
  "started (snd (User_findOne attributes cond w)) = started w"
  by (simp add: User_findOne_def query_def split: list.splits option.splits)

lemma User_create_answers:
  "answers (Suc n) w \<Longrightarrow> users_id_seq w \<notin> set (map u_id (users w)) \<Longrightarrow>
   User_create v w =
     (Inr (new_row v w),
      w\<lparr>faults := tl (faults w), users_id_seq := users_id_seq w + 1,
        users := users w @ [new_row v w]\<rparr>)"
  by (simp add: User_create_def query_answers) (simp add: Let_def new_row_def)

lemma User_create_Inr:
  "User_create v w = (Inr row, w1) \<Longrightarrow>
   row = new_row v w \<and> users w1 = users w @ [row] \<and> users_id_seq w \<notin> set (map u_id (users w))"
  by (auto simp: User_create_def query_def Let_def new_row_def split: list.splits option.splits if_splits)

lemma User_create_history:
  "history (snd (User_create v w)) = history w"
  by (simp add: User_create_def query_def Let_def split: list.splits option.splits)

lemma User_create_started:
  "started (snd (User_create v w)) = started w"
  by (simp add: User_create_def query_def Let_def split: list.splits option.splits)

lemma find_mobile_proj:
  "map_option (\<lambda>r. \<lparr>d_id = u_id r, d_mobile = u_mobile r\<rparr>) (find (\<lambda>r. live r \<and> u_mobile r = m) xs)
   = map_option (\<lambda>r. \<lparr>d_id = u_id r, d_mobile = m\<rparr>) (find (\<lambda>r. live r \<and> u_mobile r = m) xs)"
  by (induction xs) auto

lemma find_id_proj:
  "map_option (\<lambda>r. \<lparr>v_id = u_id r, v_name = u_name r, v_email = u_email r, v_mobile = u_mobile r\<rparr>)
     (find (\<lambda>r. live r \<and> u_id r = i) xs)
   = map_option (\<lambda>r. \<lparr>v_id = i, v_name = u_name r, v_email = u_email r, v_mobile = u_mobile r\<rparr>)
       (find (\<lambda>r. live r \<and> u_id r = i) xs)"
  by (induction xs) auto

lemma checkDuplicate_answers:
  "answers (Suc n) w \<Longrightarrow>
   checkDuplicateByMobileActivity m w =
     (Inr (map_option (\<lambda>r. \<lparr>d_id = u_id r, d_mobile = m\<rparr>)
             (find (\<lambda>r. live r \<and> u_mobile r = m) (users w))),
      w\<lparr>faults := tl (faults w)\<rparr>)"
  by (simp add: checkDuplicateByMobileActivity_def User_findOne_answers find_mobile_proj)

lemma getUser_answers:
  "answers (Suc n) w \<Longrightarrow>
   getUserActivity i w =
     (Inr (map_option (\<lambda>r. \<lparr>v_id = i, v_name = u_name r, v_email = u_email r, v_mobile = u_mobile r\<rparr>)
             (find (\<lambda>r. live r \<and> u_id r = i) (users w))),
      w\<lparr>faults := tl (faults w)\<rparr>)"
  by (simp add: getUserActivity_def User_findOne_answers find_id_proj)

lemma createUserActivity_answers:
  "answers (Suc n) w \<Longrightarrow> users_id_seq w \<notin> set (map u_id (users w)) \<Longrightarrow>
   createUserActivity ud w =
     (Inr \<lparr>v_id = users_id_seq w, v_name = name ud, v_email = email ud, v_mobile = mobile ud\<rparr>,
      w\<lparr>faults := tl (faults w), users_id_seq := users_id_seq w + 1,
        users := users w @ [new_row ud w]\<rparr>)"
  by (simp add: createUserActivity_def User_create_answers) (simp add: new_row_def)

lemma createUserActivity_Inr:
  "createUserActivity ud w = (Inr v, w1) \<Longrightarrow>
   v = \<lparr>v_id = users_id_seq w, v_name = name ud, v_email = email ud, v_mobile = mobile ud\<rparr> \<and>
   users w1 = users w @ [new_row ud w] \<and> users_id_seq w \<notin> set (map u_id (users w))"
  by (auto simp: createUserActivity_def new_row_def split: prod.splits sum.splits dest!: User_create_Inr)

subsection \<open>The engine's attempts\<close>

lemma attempts_Inr:
  "activity w = (Inr x, w') \<Longrightarrow> attempts n activity w = (Inr x, w')"
  by (cases n) simp_all

lemma proxy_Inr:
  "activity (w\<lparr>history := history w @ [call]\<rparr>) = (Inr x, w') \<Longrightarrow>
   proxyActivities call activity w = (Inr x, w')"
  by (simp add: proxyActivities_def attempts_Inr)

lemma attempts_frame:
  assumes "\<And>w. f (snd (activity w)) = f w"
  shows "f (snd (attempts n activity w)) = f w"
proof (induction n arbitrary: w)
  case 0
  show ?case by (simp add: assms)
next
  case (Suc n)
  show ?case
  proof (cases "activity w")
    case (Pair r w')
    with assms [of w] have same: "f w' = f w"
      by simp
    show ?thesis
    proof (cases r)
      case (Inl e)
      with Pair Suc.IH [of w'] same show ?thesis by simp
    next
      case (Inr x)
      with Pair same show ?thesis by simp
    qed
  qed
qed

lemma proxy_history:
  assumes "\<And>w. history (snd (activity w)) = history w"
  shows "history (snd (proxyActivities call activity w)) = history w @ [call]"
  using attempts_frame [of history activity "retries w" "w\<lparr>history := history w @ [call]\<rparr>", OF assms]
  by (auto simp: proxyActivities_def split: prod.splits sum.splits)

lemma proxy_started:
  assumes "\<And>w. started (snd (activity w)) = started w"
  shows "started (snd (proxyActivities call activity w)) = started w"
  using attempts_frame [of started activity "retries w" "w\<lparr>history := history w @ [call]\<rparr>", OF assms]
  by (auto simp: proxyActivities_def split: prod.splits sum.splits)

lemma attempts_Inl:
  assumes "\<And>w e. fst (activity w) = Inl e \<Longrightarrow>
             \<exists>fs. faults w = Some e # fs \<and> faults (snd (activity w)) = fs"
  shows "fst (attempts n activity w) = Inl e \<Longrightarrow>
         (\<exists>e0 fs. faults w = Some e0 # fs) \<and> Some e \<in> set (faults w)"
proof (induction n arbitrary: w)
  case 0
  with assms [of w e] show ?case by auto
next
  case (Suc n)
  show ?case
  proof (cases "activity w")
    case (Pair r w')
    show ?thesis
    proof (cases r)
      case (Inl e')
      with Pair assms [of w e'] obtain fs where fs: "faults w = Some e' # fs" "faults w' = fs"
        by auto
      from Suc.prems Pair Inl have "fst (attempts n activity w') = Inl e"
        by simp
      from Suc.IH [OF this] fs show ?thesis
        by auto
    next
      case (Inr x)
      with Pair Suc.prems show ?thesis by simp
    qed
  qed
qed

lemma proxy_Inl:
  assumes "\<And>w e. fst (activity w) = Inl e \<Longrightarrow>
             \<exists>fs. faults w = Some e # fs \<and> faults (snd (activity w)) = fs"
    and "fst (proxyActivities call activity w) = Inl e"
  shows "(\<exists>e0 fs. faults w = Some e0 # fs) \<and>
         (\<exists>e1. Some e1 \<in> set (faults w) \<and> e = ActivityFailure (ApplicationFailure e1))"
proof -
  let ?w = "w\<lparr>history := history w @ [call]\<rparr>"
  obtain r w' where run: "attempts (retries w) activity ?w = (r, w')"
    by (cases "attempts (retries w) activity ?w")
  with assms(2) obtain e1 where e1: "r = Inl e1" "e = ActivityFailure (ApplicationFailure e1)"
    by (cases r) (auto simp: proxyActivities_def)
  with run have "fst (attempts (retries w) activity ?w) = Inl e1"
    by simp
  from attempts_Inl [of activity, OF assms(1) this] e1 show ?thesis
    by auto
qed

subsection \<open>Frames of the activities\<close>

lemma checkDuplicate_history:
  "history (snd (checkDuplicateByMobileActivity m w)) = history w"
  by (simp add: checkDuplicateByMobileActivity_def User_findOne_history)

lemma checkDuplicate_started:
  "started (snd (checkDuplicateByMobileActivity m w)) = started w"
  by (simp add: checkDuplicateByMobileActivity_def User_findOne_started)

lemma createUserActivity_history:
  "history (snd (createUserActivity ud w)) = history w"
  using User_create_history [of "\<lparr>name = name ud, email = email ud, mobile = mobile ud\<rparr>" w]
  by (auto simp: createUserActivity_def split: prod.splits sum.splits)

lemma createUserActivity_started:
  "started (snd (createUserActivity ud w)) = started w"
  using User_create_started [of "\<lparr>name = name ud, email = email ud, mobile = mobile ud\<rparr>" w]
  by (auto simp: createUserActivity_def split: prod.splits sum.splits)

lemma getUserActivity_history:
  "history (snd (getUserActivity i w)) = history w"
  by (simp add: getUserActivity_def User_findOne_history)

lemma getUserActivity_started:
  "started (snd (getUserActivity i w)) = started w"
  by (simp add: getUserActivity_def User_findOne_started)

lemma getUserActivity_Inl:
  "fst (getUserActivity i w) = Inl e \<Longrightarrow>
   \<exists>fs. faults w = Some e # fs \<and> faults (snd (getUserActivity i w)) = fs"
  unfolding getUserActivity_def await_return by (rule User_findOne_Inl)

lemma updateUserActivity_started:
  "started (snd (updateUserActivity p w)) = started w"
  by (simp add: updateUserActivity_def User_update_def query_def return_io_def Let_def
      split: prod.splits sum.splits list.splits option.splits)

lemma getAllUsersActivity_history:
  "history (snd (getAllUsersActivity p w)) = history w"
  by (simp add: getAllUsersActivity_def Let_def User_findAll_def query_def
      split: list.splits option.splits)

lemma getAllUsersActivity_started:
  "started (snd (getAllUsersActivity p w)) = started w"
  by (simp add: getAllUsersActivity_def Let_def User_findAll_def query_def
      split: list.splits option.splits)

subsection \<open>Updates\<close>

lemma User_update_none:
  "no_values v \<Longrightarrow> User_update v i w = (Inr 0, w)"
  by (simp add: User_update_def return_io_def)

lemma User_update_answers:
  "answers (Suc n) w \<Longrightarrow> \<not> no_values v \<Longrightarrow>
   User_update v i w =
     (Inr (length (filter (hit i) (users w))),
      w\<lparr>faults := tl (faults w), users := updated v i (now w) (users w)\<rparr>)"
  by (simp add: User_update_def query_answers)
    (simp add: Let_def updated_def hit_def [abs_def] stamped_def [abs_def])

lemma updateUserActivity_answers:
  "answers (Suc n) w \<Longrightarrow>
   \<exists>w'. updateUserActivity params w = (Inr \<lparr>r_id = p_id params, r_success = True\<rparr>, w') \<and>
        users w' = updated (p_userData params) (p_id params) (now w) (users w) \<and>
        answers n w'"
proof (cases "no_values (p_userData params)")
  case True
  assume "answers (Suc n) w"
  then have "answers n w"
    by (rule answers_less) simp
  with True show ?thesis
    by (simp add: updateUserActivity_def User_update_none updated_def)
next
  case False
  assume a: "answers (Suc n) w"
  then have "answers n (w\<lparr>faults := tl (faults w),
      users := updated (p_userData params) (p_id params) (now w) (users w)\<rparr>)"
    by (rule answers_tl) simp
  with a False show ?thesis
    by (simp add: updateUserActivity_def User_update_answers)
qed

lemma updateUserWorkflow_answers:
  assumes "answers (Suc n) w"
  shows "\<exists>w'. updateUserWorkflow \<lparr>p_id = i, p_userData = v\<rparr> w =
             (Inr \<lparr>uw_code = 200, uw_success = True, uw_id = i\<rparr>, w') \<and>
           users w' = updated v i (now w) (users w) \<and> answers n w'"
proof -
  let ?p = "\<lparr>p_id = i, p_userData = v\<rparr>"
  let ?w0 = "w\<lparr>history := history w @ [UpdateUser ?p]\<rparr>"
  from assms have "answers (Suc n) ?w0"
    by simp
  from updateUserActivity_answers [OF this, of ?p]
  obtain w' where act: "updateUserActivity ?p ?w0 = (Inr \<lparr>r_id = i, r_success = True\<rparr>, w')"
    and u: "users w' = updated v i (now w) (users w)" and a: "answers n w'"
    by auto
  from proxy_Inr [where activity = "updateUserActivity ?p" and call = "UpdateUser ?p" and w = w,
      OF act] u a
  show ?thesis
    by (simp add: updateUserWorkflow_def Let_def await_def return_io_def)
qed

lemma set_field_twice: "set_field new (set_field new old) = set_field new old"
  by (cases new) (simp_all add: set_field_def)

lemma stamped_twice: "stamped v t' (stamped v t r) = stamped v t' r"
  by (simp add: stamped_def assign_def set_field_twice)

lemma stamp_stamped: "(stamped v t r)\<lparr>u_updated_on := t'\<rparr> = stamped v t' r"
  by (simp add: stamped_def)

lemma hit_stamped [simp]: "hit i (stamped v t r) = hit i r"
  by (simp add: hit_def stamped_def assign_def live_def)

lemma filter_hit_updated:
  "\<not> no_values v \<Longrightarrow>
   filter (hit i) (updated v i t rows) = map (stamped v t) (filter (hit i) rows) \<and>
   filter (\<lambda>r. \<not> hit i r) (updated v i t rows) = filter (\<lambda>r. \<not> hit i r) rows"
  by (simp add: updated_def filter_map o_def)

lemma updated_twice: "updated v i t' (updated v i t rows) = updated v i t' rows"
proof (cases "no_values v")
  case True
  then show ?thesis by (simp add: updated_def)
next
  case False
  from filter_hit_updated [OF False, of i t rows] False show ?thesis
    by (simp add: updated_def [of v i t' "updated v i t rows"] updated_def [of v i t' rows]
        o_def stamped_twice)
qed

lemma updated_stamp:
  "updated v i t' (updated v i t rows) =
     map (\<lambda>r. if live r \<and> u_id r = i \<and> \<not> no_values v then r\<lparr>u_updated_on := t'\<rparr> else r)
       (updated v i t rows)"
proof (cases "no_values v")
  case True
  then show ?thesis by (simp add: updated_def)
next
  case False
  have a: "map (\<lambda>r. if hit i r then r\<lparr>u_updated_on := t'\<rparr> else r)
             (filter (\<lambda>r. \<not> hit i r) rows) = filter (\<lambda>r. \<not> hit i r) rows"
    by (intro map_idI) auto
  have b: "map (\<lambda>r. if hit i r then r\<lparr>u_updated_on := t'\<rparr> else r)
             (map (stamped v t) (filter (hit i) rows)) = map (stamped v t') (filter (hit i) rows)"
    by (simp add: o_def stamp_stamped)
  have "updated v i t' (updated v i t rows) =
      map (\<lambda>r. if hit i r then r\<lparr>u_updated_on := t'\<rparr> else r) (updated v i t rows)"
    using False a b by (simp add: updated_twice) (simp add: updated_def)
  with False show ?thesis
    by (simp add: hit_def)
qed

lemma updated_absent:
  "find (\<lambda>r. live r \<and> u_id r = i) rows = None \<Longrightarrow> updated v i t rows = rows"
proof -
  assume "find (\<lambda>r. live r \<and> u_id r = i) rows = None"
  then have none: "\<forall>r \<in> set rows. \<not> hit i r"
    by (simp add: find_None_iff hit_def)
  then have "filter (hit i) rows = []" "filter (\<lambda>r. \<not> hit i r) rows = rows"
    by (simp_all add: filter_empty_conv filter_id_conv)
  then show ?thesis
    by (simp add: updated_def)
qed

subsection \<open>Pages\<close>

lemma User_findAll_answers:
  "answers (Suc n) w \<Longrightarrow>
   User_findAll lim off w =
     (Inr (take lim (drop off (filter live (users w)))), w\<lparr>faults := tl (faults w)\<rparr>)"
  by (simp add: User_findAll_def query_answers) simp

lemma getAllUsersActivity_answers:
  "answers (Suc n) w \<Longrightarrow>
   getAllUsersActivity params w =
     (Inr (take (case limit params of None \<Rightarrow> 100 | Some l \<Rightarrow> l)
             (drop (case offset params of None \<Rightarrow> 0 | Some k \<Rightarrow> k) (filter live (users w)))),
      w\<lparr>faults := tl (faults w)\<rparr>)"
  by (simp add: getAllUsersActivity_def Let_def User_findAll_answers)

lemma find_append_fresh:
  "\<forall>x \<in> set xs. \<not> P x \<Longrightarrow> find P (xs @ ys) = find P ys"
  by (induction xs) auto

subsection \<open>Workflows\<close>

lemma createUserWorkflow_history:
  "history (snd (createUserWorkflow ud w)) = history w @ [CheckDuplicateByMobile (mobile ud)] \<or>
   history (snd (createUserWorkflow ud w)) =
     history w @ [CheckDuplicateByMobile (mobile ud), CreateUser ud]"
proof -
  obtain r w1 where c: "proxyActivities (CheckDuplicateByMobile (mobile ud))
      (checkDuplicateByMobileActivity (mobile ud)) w = (r, w1)"
    by (cases "proxyActivities (CheckDuplicateByMobile (mobile ud))
      (checkDuplicateByMobileActivity (mobile ud)) w")
  then have s1: "history w1 = history w @ [CheckDuplicateByMobile (mobile ud)]"
    using proxy_history [of "checkDuplicateByMobileActivity (mobile ud)"
        "CheckDuplicateByMobile (mobile ud)" w, OF checkDuplicate_history]
    by simp
  have s2: "history (snd (proxyActivities (CreateUser ud) (createUserActivity ud) w1)) =
      history w @ [CheckDuplicateByMobile (mobile ud), CreateUser ud]"
    using proxy_history [of "createUserActivity ud" "CreateUser ud" w1,
        OF createUserActivity_history] s1
    by simp
  show ?thesis
    using c s1 s2
    by (auto simp: createUserWorkflow_def await_def return_io_def
        split: prod.splits sum.splits option.splits)
qed

lemma createUserWorkflow_started:
  "started (snd (createUserWorkflow ud w)) = started w"
proof -
  obtain r w1 where c: "proxyActivities (CheckDuplicateByMobile (mobile ud))
      (checkDuplicateByMobileActivity (mobile ud)) w = (r, w1)"
    by (cases "proxyActivities (CheckDuplicateByMobile (mobile ud))
      (checkDuplicateByMobileActivity (mobile ud)) w")
  then have s1: "started w1 = started w"
    using proxy_started [of "checkDuplicateByMobileActivity (mobile ud)"
        "CheckDuplicateByMobile (mobile ud)" w, OF checkDuplicate_started]
    by simp
  have s2: "started (snd (proxyActivities (CreateUser ud) (createUserActivity ud) w1)) =
      started w"
    using proxy_started [of "createUserActivity ud" "CreateUser ud" w1,
        OF createUserActivity_started] s1
    by simp
  show ?thesis
    using c s1 s2
    by (auto simp: createUserWorkflow_def await_def return_io_def
        split: prod.splits sum.splits option.splits)
qed

lemma updateUserWorkflow_started:
  "started (snd (updateUserWorkflow p w)) = started w"
  using proxy_started
    [of "updateUserActivity \<lparr>p_id = p_id p, p_userData = p_userData p\<rparr>"
      "UpdateUser \<lparr>p_id = p_id p, p_userData = p_userData p\<rparr>" w, OF updateUserActivity_started]
  by (auto simp: updateUserWorkflow_def Let_def await_def return_io_def
      split: prod.splits sum.splits)

lemma getUserWorkflow_started:
  "started (snd (getUserWorkflow i w)) = started w"
  using proxy_started [of "getUserActivity i" "GetUser i" w, OF getUserActivity_started]
  by (auto simp: getUserWorkflow_def await_def return_io_def
      split: prod.splits sum.splits option.splits)

lemma getAllUsersWorkflow_history:
  "history (snd (getAllUsersWorkflow \<lparr>limit = None, offset = None\<rparr> w)) =
     history w @ [GetAllUsers \<lparr>limit = Some 100, offset = Some 0\<rparr>]"
  using proxy_history
    [of "getAllUsersActivity \<lparr>limit = Some 100, offset = Some 0\<rparr>"
      "GetAllUsers \<lparr>limit = Some 100, offset = Some 0\<rparr>" w, OF getAllUsersActivity_history]
  by (auto simp: getAllUsersWorkflow_def Let_def await_def return_io_def
      split: prod.splits sum.splits)

lemma getAllUsersWorkflow_started:
  "started (snd (getAllUsersWorkflow p w)) = started w"
  using proxy_started
    [of "getAllUsersActivity
          \<lparr>limit = Some (case limit p of None \<Rightarrow> 100 | Some l \<Rightarrow> l),
           offset = Some (case offset p of None \<Rightarrow> 0 | Some k \<Rightarrow> k)\<rparr>"
      "GetAllUsers
          \<lparr>limit = Some (case limit p of None \<Rightarrow> 100 | Some l \<Rightarrow> l),
           offset = Some (case offset p of None \<Rightarrow> 0 | Some k \<Rightarrow> k)\<rparr>" w,
      OF getAllUsersActivity_started]
  by (auto simp: getAllUsersWorkflow_def Let_def await_def return_io_def
      split: prod.splits sum.splits)

lemma workflow_start_started:
  assumes "\<And>w. started (snd (run w)) = started w"
  shows "started (snd (workflow_start workflowType taskQueue workflowId run w)) =
     started w @ [\<lparr>s_workflowType = workflowType, s_taskQueue = taskQueue,
                   s_workflowId = workflowId\<rparr>]"
  using assms [of "w\<lparr>started := started w @
           [\<lparr>s_workflowType = workflowType, s_taskQueue = taskQueue,
             s_workflowId = workflowId\<rparr>]\<rparr>"]
  by (auto simp: workflow_start_def split: prod.splits sum.splits)

lemma getUserWorkflow_Inl:
  assumes "fst (getUserWorkflow i w) = Inl e"
  shows "(\<exists>e0 fs. faults w = Some e0 # fs) \<and>
         (\<exists>e1. Some e1 \<in> set (faults w) \<and> e = ActivityFailure (ApplicationFailure e1))"
proof -
  from assms have "fst (proxyActivities (GetUser i) (getUserActivity i) w) = Inl e"
    by (auto simp: getUserWorkflow_def await_def return_io_def
        split: prod.splits sum.splits option.splits)
  from proxy_Inl [of "getUserActivity i", OF getUserActivity_Inl this] show ?thesis .
qed

lemma in_spec_format_iff:
  "in_spec_format operation ts wid \<longleftrightarrow> (\<exists>k. wid = spec_workflow_id operation k ts)"
proof
  assume "in_spec_format operation ts wid"
  then have len: "length (operation @ ''-'') + length (''-'' @ show_nat ts) \<le> length wid"
    and pre: "take (length (operation @ ''-'')) wid = operation @ ''-''"
    and suf: "drop (length wid - length (''-'' @ show_nat ts)) wid = ''-'' @ show_nat ts"
    by (simp_all add: in_spec_format_def Let_def)
  let ?n = "length (operation @ ''-'')"
  let ?m = "length (''-'' @ show_nat ts)"
  let ?k = "take (length wid - ?n - ?m) (drop ?n wid)"
  have "drop ?n wid = ?k @ drop (length wid - ?n - ?m) (drop ?n wid)"
    by (simp only: append_take_drop_id)
  also have "drop (length wid - ?n - ?m) (drop ?n wid) = drop (length wid - ?m) wid"
  proof -
    have "length wid - ?n - ?m + ?n = length wid - ?m"
      using len by linarith
    then show ?thesis
      by (simp only: drop_drop)
  qed
  finally have "drop ?n wid = ?k @ ''-'' @ show_nat ts"
    using suf by simp
  then have "wid = (operation @ ''-'') @ ?k @ ''-'' @ show_nat ts"
    using pre by (metis append_take_drop_id)
  then show "\<exists>k. wid = spec_workflow_id operation k ts"
    unfolding spec_workflow_id_def by auto
next
  assume "\<exists>k. wid = spec_workflow_id operation k ts"
  then show "in_spec_format operation ts wid"
    by (auto simp: in_spec_format_def spec_workflow_id_def Let_def)
qed

section \<open>The claims\<close>

text \<open>
  C3. For every key, \<open>checkDuplicateByMobileActivity\<close> returns the first live row with that
  mobile as the object \<open>{id, mobile}\<close> and nothing else of the row, or \<open>null\<close> when there
  is none; it raises only what the database raises, never for absence; it writes nothing.
\<close>

theorem checkDuplicate_returns_projection_or_null:
  "(answers 1 w \<longrightarrow>
      fst (checkDuplicateByMobileActivity m w) =
        Inr (map_option (\<lambda>r. \<lparr>d_id = u_id r, d_mobile = m\<rparr>)
               (find (\<lambda>r. live r \<and> u_mobile r = m) (users w)))) \<and>
   (\<forall>e. fst (checkDuplicateByMobileActivity m w) = Inl e \<longrightarrow> (\<exists>fs. faults w = Some e # fs)) \<and>
   users (snd (checkDuplicateByMobileActivity m w)) = users w"
  unfolding checkDuplicateByMobileActivity_def await_return
  by (auto simp: User_findOne_answers find_mobile_proj User_findOne_users dest: User_findOne_Inl)

theorem checkDuplicate_returns_projection_or_null_witness:
  "answers 1 two_users \<and>
   fst (checkDuplicateByMobileActivity ''2222222222'' two_users) =
     Inr (Some \<lparr>d_id = 2, d_mobile = ''2222222222''\<rparr>) \<and>
   fst (checkDuplicateByMobileActivity ''1234567890'' two_users) = Inr None \<and>
   fst (checkDuplicateByMobileActivity ''1234567890'' (two_users\<lparr>faults := [Some connection_lost]\<rparr>)) =
     Inl connection_lost \<and>
   (\<exists>fs. faults (two_users\<lparr>faults := [Some connection_lost]\<rparr>) = Some connection_lost # fs)"
proof -
  have a: "answers 1 two_users"
    by (simp add: answers_def two_users_def)
  have f: "fst (checkDuplicateByMobileActivity ''1234567890'' (two_users\<lparr>faults := [Some connection_lost]\<rparr>)) =
     Inl connection_lost"
    by (simp add: checkDuplicateByMobileActivity_def User_findOne_def query_def)
  show ?thesis
    using a f
      checkDuplicate_returns_projection_or_null [of two_users "''2222222222''"]
      checkDuplicate_returns_projection_or_null [of two_users "''1234567890''"]
      checkDuplicate_returns_projection_or_null
        [of "two_users\<lparr>faults := [Some connection_lost]\<rparr>" "''1234567890''"]
    by (simp add: two_users_def user_one_def user_two_def live_def)
qed

text \<open>
  C2. For every create input the workflow first calls the duplicate check on the mobile,
  and the only call that can follow is \<open>createUserActivity\<close>, whatever the run. When a
  live row has that mobile, it ends with \<open>{code: 409, id, message}\<close>, the id that of the
  row found, and the only call in the history is the check: \<open>createUserActivity\<close> is not
  called and the table is as before. When none has, it calls \<open>createUserActivity\<close> and
  ends with \<open>{code: 201, message, id, user}\<close>, the id that of the created row and
  \<open>user\<close> the submitted fields with it.
\<close>

theorem createUserWorkflow_checks_then_creates:
  "(history (snd (createUserWorkflow ud w)) =
      history w @ [CheckDuplicateByMobile (mobile ud)] \<or>
    history (snd (createUserWorkflow ud w)) =
      history w @ [CheckDuplicateByMobile (mobile ud), CreateUser ud]) \<and>
   (answers 1 w \<and> find (\<lambda>r. live r \<and> u_mobile r = mobile ud) (users w) = Some r \<longrightarrow>
      createUserWorkflow ud w =
        (Inr \<lparr>c_code = 409, c_message = ''Duplicate mobile number found. Possible fraud.'',
              c_id = Some (u_id r), c_user = None\<rparr>,
         w\<lparr>faults := tl (faults w),
           history := history w @ [CheckDuplicateByMobile (mobile ud)]\<rparr>)) \<and>
   (answers 2 w \<and> find (\<lambda>r. live r \<and> u_mobile r = mobile ud) (users w) = None \<and>
    users_id_seq w \<notin> set (map u_id (users w)) \<longrightarrow>
      createUserWorkflow ud w =
        (Inr \<lparr>c_code = 201, c_message = ''Your account created successfully.'',
              c_id = Some (users_id_seq w),
              c_user = Some \<lparr>v_id = users_id_seq w, v_name = name ud, v_email = email ud,
                              v_mobile = mobile ud\<rparr>\<rparr>,
         w\<lparr>faults := tl (tl (faults w)),
           history := history w @ [CheckDuplicateByMobile (mobile ud), CreateUser ud],
           users_id_seq := users_id_seq w + 1,
           users := users w @ [new_row ud w]\<rparr>))"
proof (intro conjI impI)
  show "history (snd (createUserWorkflow ud w)) =
      history w @ [CheckDuplicateByMobile (mobile ud)] \<or>
    history (snd (createUserWorkflow ud w)) =
      history w @ [CheckDuplicateByMobile (mobile ud), CreateUser ud]"
    by (rule createUserWorkflow_history)
next
  assume h: "answers 1 w \<and> find (\<lambda>r. live r \<and> u_mobile r = mobile ud) (users w) = Some r"
  then have a: "answers (Suc 0) (w\<lparr>history := history w @ [CheckDuplicateByMobile (mobile ud)]\<rparr>)"
    by simp
  note check = proxy_Inr
    [where activity = "checkDuplicateByMobileActivity (mobile ud)"
      and call = "CheckDuplicateByMobile (mobile ud)" and w = w,
      OF checkDuplicate_answers [OF a]]
  show "createUserWorkflow ud w =
        (Inr \<lparr>c_code = 409, c_message = ''Duplicate mobile number found. Possible fraud.'',
              c_id = Some (u_id r), c_user = None\<rparr>,
         w\<lparr>faults := tl (faults w),
           history := history w @ [CheckDuplicateByMobile (mobile ud)]\<rparr>)"
    using h check
    by (simp add: createUserWorkflow_def await_def return_io_def)
next
  assume h: "answers 2 w \<and> find (\<lambda>r. live r \<and> u_mobile r = mobile ud) (users w) = None \<and>
    users_id_seq w \<notin> set (map u_id (users w))"
  let ?w0 = "w\<lparr>history := history w @ [CheckDuplicateByMobile (mobile ud)]\<rparr>"
  let ?w1 = "?w0\<lparr>faults := tl (faults ?w0)\<rparr>"
  let ?w2 = "?w1\<lparr>history := history ?w1 @ [CreateUser ud]\<rparr>"
  from h have a: "answers (Suc 1) ?w0"
    by (simp add: numeral_2_eq_2)
  then have b: "answers (Suc 0) ?w2"
    using answers_tl [of 1 ?w0 ?w2] by simp
  have fresh: "users_id_seq ?w2 \<notin> set (map u_id (users ?w2))"
    using h by simp
  note check = proxy_Inr
    [where activity = "checkDuplicateByMobileActivity (mobile ud)"
      and call = "CheckDuplicateByMobile (mobile ud)" and w = w,
      OF checkDuplicate_answers [OF a]]
  note creation = proxy_Inr
    [where activity = "createUserActivity ud" and call = "CreateUser ud" and w = ?w1,
      OF createUserActivity_answers [OF b fresh]]
  show "createUserWorkflow ud w =
        (Inr \<lparr>c_code = 201, c_message = ''Your account created successfully.'',
              c_id = Some (users_id_seq w),
              c_user = Some \<lparr>v_id = users_id_seq w, v_name = name ud, v_email = email ud,
                              v_mobile = mobile ud\<rparr>\<rparr>,
         w\<lparr>faults := tl (tl (faults w)),
           history := history w @ [CheckDuplicateByMobile (mobile ud), CreateUser ud],
           users_id_seq := users_id_seq w + 1,
           users := users w @ [new_row ud w]\<rparr>)"
    using h check creation
    by (simp add: createUserWorkflow_def await_def return_io_def new_row_def)
qed

theorem createUserWorkflow_checks_then_creates_witness:
  "answers 2 two_users \<and>
   find (\<lambda>r. live r \<and> u_mobile r = mobile john) (users two_users) = None \<and>
   users_id_seq two_users \<notin> set (map u_id (users two_users)) \<and>
   fst (createUserWorkflow john two_users) =
     Inr \<lparr>c_code = 201, c_message = ''Your account created successfully.'', c_id = Some 3,
          c_user = Some \<lparr>v_id = 3, v_name = ''John Doe'', v_email = ''john@x.com'',
                          v_mobile = ''1234567890''\<rparr>\<rparr> \<and>
   history (snd (createUserWorkflow john two_users)) =
     [CheckDuplicateByMobile ''1234567890'', CreateUser john] \<and>
   answers 1 (snd (createUserWorkflow john two_users)) \<and>
   find (\<lambda>r. live r \<and> u_mobile r = mobile john) (users (snd (createUserWorkflow john two_users))) =
     Some (new_row john two_users) \<and>
   fst (createUserWorkflow john (snd (createUserWorkflow john two_users))) =
     Inr \<lparr>c_code = 409, c_message = ''Duplicate mobile number found. Possible fraud.'',
          c_id = Some 3, c_user = None\<rparr> \<and>
   history (snd (createUserWorkflow john (snd (createUserWorkflow john two_users)))) =
     [CheckDuplicateByMobile ''1234567890'', CreateUser john,
      CheckDuplicateByMobile ''1234567890'']"
proof -
  have h1: "answers 2 two_users \<and>
      find (\<lambda>r. live r \<and> u_mobile r = mobile john) (users two_users) = None \<and>
      users_id_seq two_users \<notin> set (map u_id (users two_users))"
    by (simp add: answers_def two_users_def user_one_def user_two_def john_def live_def)
  note first = createUserWorkflow_checks_then_creates
      [of john two_users, THEN conjunct2, THEN conjunct2, rule_format, OF h1]
  have h2: "answers 1 (snd (createUserWorkflow john two_users)) \<and>
      find (\<lambda>r. live r \<and> u_mobile r = mobile john)
        (users (snd (createUserWorkflow john two_users))) = Some (new_row john two_users)"
    unfolding first
    by (simp add: answers_def two_users_def user_one_def user_two_def john_def live_def
        new_row_def)
  note second = createUserWorkflow_checks_then_creates
      [of john "snd (createUserWorkflow john two_users)" "new_row john two_users",
        THEN conjunct2, THEN conjunct1, rule_format, OF h2]
  show ?thesis
    using h1 h2 first second
    by (simp add: two_users_def john_def new_row_def)
qed

text \<open>
  C4. For every id, \<open>getUserWorkflow\<close> ends with \<open>{code: 404, message: 'User not found',
  user: null}\<close> when no live row has the id, and with \<open>{code: 200, user}\<close> when one has.
  Absence is a returned value: the workflow fails only when the database has failed a
  query, and then with the engine's \<open>ActivityFailure\<close> around one of the database's
  errors.
\<close>

theorem getUserWorkflow_404_or_200:
  "(answers 1 w \<and> find (\<lambda>r. live r \<and> u_id r = i) (users w) = None \<longrightarrow>
      fst (getUserWorkflow i w) =
        Inr \<lparr>g_code = 404, g_message = Some ''User not found'', g_user = None\<rparr>) \<and>
   (answers 1 w \<and> find (\<lambda>r. live r \<and> u_id r = i) (users w) = Some r \<longrightarrow>
      fst (getUserWorkflow i w) =
        Inr \<lparr>g_code = 200, g_message = None,
             g_user = Some \<lparr>v_id = i, v_name = u_name r, v_email = u_email r,
                             v_mobile = u_mobile r\<rparr>\<rparr>) \<and>
   (\<forall>e. fst (getUserWorkflow i w) = Inl e \<longrightarrow>
      (\<exists>e0 fs. faults w = Some e0 # fs) \<and>
      (\<exists>e1. Some e1 \<in> set (faults w) \<and> e = ActivityFailure (ApplicationFailure e1)))"
proof (intro conjI impI allI)
  assume h: "answers 1 w \<and> find (\<lambda>r. live r \<and> u_id r = i) (users w) = None"
  then have "answers (Suc 0) (w\<lparr>history := history w @ [GetUser i]\<rparr>)"
    by simp
  from proxy_Inr [where activity = "getUserActivity i" and call = "GetUser i" and w = w,
      OF getUser_answers [OF this]] h
  show "fst (getUserWorkflow i w) =
        Inr \<lparr>g_code = 404, g_message = Some ''User not found'', g_user = None\<rparr>"
    by (simp add: getUserWorkflow_def await_def return_io_def)
next
  assume h: "answers 1 w \<and> find (\<lambda>r. live r \<and> u_id r = i) (users w) = Some r"
  then have "answers (Suc 0) (w\<lparr>history := history w @ [GetUser i]\<rparr>)"
    by simp
  from proxy_Inr [where activity = "getUserActivity i" and call = "GetUser i" and w = w,
      OF getUser_answers [OF this]] h
  show "fst (getUserWorkflow i w) =
        Inr \<lparr>g_code = 200, g_message = None,
             g_user = Some \<lparr>v_id = i, v_name = u_name r, v_email = u_email r,
                             v_mobile = u_mobile r\<rparr>\<rparr>"
    by (simp add: getUserWorkflow_def await_def return_io_def)
next
  fix e
  assume f: "fst (getUserWorkflow i w) = Inl e"
  from getUserWorkflow_Inl [OF f] show "\<exists>e0 fs. faults w = Some e0 # fs"
    by blast
  from getUserWorkflow_Inl [OF f]
  show "\<exists>e1. Some e1 \<in> set (faults w) \<and> e = ActivityFailure (ApplicationFailure e1)"
    by blast
qed

theorem getUserWorkflow_404_or_200_witness:
  "answers 1 two_users \<and>
   find (\<lambda>r. live r \<and> u_id r = 999) (users two_users) = None \<and>
   fst (getUserWorkflow 999 two_users) =
     Inr \<lparr>g_code = 404, g_message = Some ''User not found'', g_user = None\<rparr> \<and>
   find (\<lambda>r. live r \<and> u_id r = 1) (users two_users) = Some user_one \<and>
   fst (getUserWorkflow 1 two_users) =
     Inr \<lparr>g_code = 200, g_message = None,
          g_user = Some \<lparr>v_id = 1, v_name = ''User One'', v_email = ''user1@example.com'',
                          v_mobile = ''1111111111''\<rparr>\<rparr> \<and>
   fst (getUserWorkflow 1
         (two_users\<lparr>faults := [Some connection_lost, Some connection_lost,
                                Some connection_lost]\<rparr>)) =
     Inl (ActivityFailure (ApplicationFailure connection_lost)) \<and>
   (\<exists>e0 fs. faults (two_users\<lparr>faults := [Some connection_lost, Some connection_lost,
                                          Some connection_lost]\<rparr>) = Some e0 # fs)"
proof -
  let ?down = "two_users\<lparr>faults := [Some connection_lost, Some connection_lost,
                                      Some connection_lost]\<rparr>"
  have a: "answers 1 two_users"
    by (simp add: answers_def two_users_def)
  have f: "fst (getUserWorkflow 1 ?down) = Inl (ActivityFailure (ApplicationFailure connection_lost))"
    by (simp add: getUserWorkflow_def await_def proxyActivities_def getUserActivity_def
        User_findOne_def query_def two_users_def numeral_2_eq_2)
  show ?thesis
    using a f
      getUserWorkflow_404_or_200 [of two_users 999]
      getUserWorkflow_404_or_200 [of two_users 1 user_one]
      getUserWorkflow_404_or_200 [of ?down 1]
    by (simp add: two_users_def user_one_def user_two_def live_def)
qed

text \<open>
  C7. Called with neither \<open>limit\<close> nor \<open>offset\<close>, \<open>getAllUsersWorkflow\<close> calls
  \<open>getAllUsersActivity\<close> with \<open>{limit: 100, offset: 0}\<close> and ends with \<open>{code: 200, users}\<close>,
  the users being the first hundred live rows.
\<close>

theorem getAllUsersWorkflow_defaults:
  "history (snd (getAllUsersWorkflow \<lparr>limit = None, offset = None\<rparr> w)) =
     history w @ [GetAllUsers \<lparr>limit = Some 100, offset = Some 0\<rparr>] \<and>
   (answers 1 w \<longrightarrow>
      fst (getAllUsersWorkflow \<lparr>limit = None, offset = None\<rparr> w) =
        Inr \<lparr>l_code = 200, l_users = take 100 (filter live (users w))\<rparr>)"
proof (intro conjI impI)
  show "history (snd (getAllUsersWorkflow \<lparr>limit = None, offset = None\<rparr> w)) =
     history w @ [GetAllUsers \<lparr>limit = Some 100, offset = Some 0\<rparr>]"
    by (rule getAllUsersWorkflow_history)
next
  let ?call = "\<lparr>limit = Some 100, offset = Some 0\<rparr>"
  assume "answers 1 w"
  then have "answers (Suc 0) (w\<lparr>history := history w @ [GetAllUsers ?call]\<rparr>)"
    by simp
  from proxy_Inr [where activity = "getAllUsersActivity ?call" and call = "GetAllUsers ?call"
      and w = w, OF getAllUsersActivity_answers [OF this]]
  show "fst (getAllUsersWorkflow \<lparr>limit = None, offset = None\<rparr> w) =
        Inr \<lparr>l_code = 200, l_users = take 100 (filter live (users w))\<rparr>"
    by (simp add: getAllUsersWorkflow_def Let_def await_def return_io_def)
qed

theorem getAllUsersWorkflow_defaults_witness:
  "answers 1 two_users \<and>
   fst (getAllUsersWorkflow \<lparr>limit = None, offset = None\<rparr> two_users) =
     Inr \<lparr>l_code = 200, l_users = [user_one, user_two]\<rparr> \<and>
   history (snd (getAllUsersWorkflow \<lparr>limit = None, offset = None\<rparr> two_users)) =
     [GetAllUsers \<lparr>limit = Some 100, offset = Some 0\<rparr>]"
proof -
  have a: "answers 1 two_users"
    by (simp add: answers_def two_users_def)
  show ?thesis
    using a getAllUsersWorkflow_defaults [of two_users]
    by (simp add: two_users_def user_one_def user_two_def live_def)
qed

text \<open>
  C10. For every id, when the update query goes through, \<open>updateUserWorkflow\<close> ends with
  \<open>{code: 200, success: true, id}\<close>; the number of rows affected is dropped, so an id that
  no live row has gives the same result, with the table left as it was.
\<close>

theorem updateUserWorkflow_any_id:
  "(answers 1 w \<longrightarrow>
      fst (updateUserWorkflow \<lparr>p_id = i, p_userData = v\<rparr> w) =
        Inr \<lparr>uw_code = 200, uw_success = True, uw_id = i\<rparr>) \<and>
   (answers 1 w \<and> find (\<lambda>r. live r \<and> u_id r = i) (users w) = None \<longrightarrow>
      users (snd (updateUserWorkflow \<lparr>p_id = i, p_userData = v\<rparr> w)) = users w)"
proof (intro conjI impI)
  assume "answers 1 w"
  then have "answers (Suc 0) w"
    by simp
  from updateUserWorkflow_answers [OF this, of i v]
  show "fst (updateUserWorkflow \<lparr>p_id = i, p_userData = v\<rparr> w) =
        Inr \<lparr>uw_code = 200, uw_success = True, uw_id = i\<rparr>"
    by auto
next
  assume h: "answers 1 w \<and> find (\<lambda>r. live r \<and> u_id r = i) (users w) = None"
  then have "answers (Suc 0) w"
    by simp
  from updateUserWorkflow_answers [OF this, of i v] h
  show "users (snd (updateUserWorkflow \<lparr>p_id = i, p_userData = v\<rparr> w)) = users w"
    by (auto simp: updated_absent)
qed

theorem updateUserWorkflow_any_id_witness:
  "answers 1 two_users \<and>
   find (\<lambda>r. live r \<and> u_id r = 999) (users two_users) = None \<and>
   fst (updateUserWorkflow \<lparr>p_id = 999, p_userData = rename\<rparr> two_users) =
     Inr \<lparr>uw_code = 200, uw_success = True, uw_id = 999\<rparr> \<and>
   users (snd (updateUserWorkflow \<lparr>p_id = 999, p_userData = rename\<rparr> two_users)) =
     [user_one, user_two] \<and>
   fst (updateUserWorkflow \<lparr>p_id = 1, p_userData = rename\<rparr> two_users) =
     Inr \<lparr>uw_code = 200, uw_success = True, uw_id = 1\<rparr>"
proof -
  have a: "answers 1 two_users \<and> find (\<lambda>r. live r \<and> u_id r = 999) (users two_users) = None"
    by (simp add: answers_def two_users_def user_one_def user_two_def)
  show ?thesis
    using a
      updateUserWorkflow_any_id [of two_users 999 rename]
      updateUserWorkflow_any_id [of two_users 1 rename]
    by (simp add: two_users_def)
qed

text \<open>
  C9. Round trip: when \<open>createUserActivity\<close> has returned a record, \<open>getUserActivity\<close> on
  the returned id gives that record back, and its name, email and mobile are the ones
  submitted.
\<close>

theorem create_then_get_round_trip:
  "createUserActivity ud w = (Inr v, w1) \<and> answers 1 w1 \<longrightarrow>
     fst (getUserActivity (v_id v) w1) = Inr (Some v) \<and>
     v_name v = name ud \<and> v_email v = email ud \<and> v_mobile v = mobile ud"
proof (intro impI)
  assume h: "createUserActivity ud w = (Inr v, w1) \<and> answers 1 w1"
  then have v: "v = \<lparr>v_id = users_id_seq w, v_name = name ud, v_email = email ud, v_mobile = mobile ud\<rparr>"
    and u: "users w1 = users w @ [new_row ud w]"
    and fresh: "users_id_seq w \<notin> set (map u_id (users w))"
    using createUserActivity_Inr [of ud w v w1] by simp_all
  from fresh have "\<forall>r \<in> set (users w). \<not> (live r \<and> u_id r = users_id_seq w)"
    by (auto simp: image_iff)
  then have "find (\<lambda>r. live r \<and> u_id r = users_id_seq w) (users w1) = Some (new_row ud w)"
    unfolding u by (simp add: find_append_fresh) (simp add: new_row_def live_def)
  moreover from h have "answers (Suc 0) w1"
    by simp
  ultimately show "fst (getUserActivity (v_id v) w1) = Inr (Some v) \<and>
     v_name v = name ud \<and> v_email v = email ud \<and> v_mobile v = mobile ud"
    using v by (simp add: getUser_answers [of 0] new_row_def)
qed

theorem create_then_get_round_trip_witness:
  "createUserActivity john two_users =
     (Inr \<lparr>v_id = 3, v_name = ''John Doe'', v_email = ''john@x.com'', v_mobile = ''1234567890''\<rparr>,
      two_users\<lparr>users_id_seq := 4, users := [user_one, user_two, new_row john two_users]\<rparr>) \<and>
   answers 1 (two_users\<lparr>users_id_seq := 4, users := [user_one, user_two, new_row john two_users]\<rparr>) \<and>
   fst (getUserActivity 3
         (two_users\<lparr>users_id_seq := 4, users := [user_one, user_two, new_row john two_users]\<rparr>)) =
     Inr (Some \<lparr>v_id = 3, v_name = ''John Doe'', v_email = ''john@x.com'',
                 v_mobile = ''1234567890''\<rparr>)"
proof -
  let ?v = "\<lparr>v_id = 3, v_name = ''John Doe'', v_email = ''john@x.com'', v_mobile = ''1234567890''\<rparr>"
  let ?w1 = "two_users\<lparr>users_id_seq := 4, users := [user_one, user_two, new_row john two_users]\<rparr>"
  have c: "createUserActivity john two_users = (Inr ?v, ?w1)"
    by (simp add: createUserActivity_def User_create_def query_def Let_def two_users_def
        john_def user_one_def user_two_def new_row_def)
  have a: "answers 1 ?w1"
    by (simp add: answers_def two_users_def)
  show ?thesis
    using c a create_then_get_round_trip [of john two_users ?v ?w1]
    by simp
qed


text \<open>
  C5, as amended. Applying the same update twice through \<open>updateUserWorkflow\<close> returns
  \<open>{code: 200, success: true, id}\<close> both times and leaves every column as one application
  does, except \<open>updated_on\<close>: when the update sets a column, \<open>updated_on\<close> of the rows it
  reaches holds the time of the second application, and the table is the one a single
  application at that time gives; an update that sets no column is not sent to the
  database and leaves the table as it is.
\<close>

theorem update_twice_differs_in_updated_on_only:
  "answers 2 w \<longrightarrow>
     fst (updateUserWorkflow \<lparr>p_id = i, p_userData = v\<rparr> w) =
       Inr \<lparr>uw_code = 200, uw_success = True, uw_id = i\<rparr> \<and>
     fst (updateUserWorkflow \<lparr>p_id = i, p_userData = v\<rparr>
            ((snd (updateUserWorkflow \<lparr>p_id = i, p_userData = v\<rparr> w))\<lparr>now := t\<rparr>)) =
       Inr \<lparr>uw_code = 200, uw_success = True, uw_id = i\<rparr> \<and>
     users (snd (updateUserWorkflow \<lparr>p_id = i, p_userData = v\<rparr>
                  ((snd (updateUserWorkflow \<lparr>p_id = i, p_userData = v\<rparr> w))\<lparr>now := t\<rparr>))) =
       map (\<lambda>r. if live r \<and> u_id r = i \<and> \<not> no_values v then r\<lparr>u_updated_on := t\<rparr> else r)
         (users (snd (updateUserWorkflow \<lparr>p_id = i, p_userData = v\<rparr> w))) \<and>
     users (snd (updateUserWorkflow \<lparr>p_id = i, p_userData = v\<rparr>
                  ((snd (updateUserWorkflow \<lparr>p_id = i, p_userData = v\<rparr> w))\<lparr>now := t\<rparr>))) =
       users (snd (updateUserWorkflow \<lparr>p_id = i, p_userData = v\<rparr> (w\<lparr>now := t\<rparr>))) \<and>
     (no_values v \<longrightarrow>
        users (snd (updateUserWorkflow \<lparr>p_id = i, p_userData = v\<rparr>
                     ((snd (updateUserWorkflow \<lparr>p_id = i, p_userData = v\<rparr> w))\<lparr>now := t\<rparr>))) =
          users w)"
proof (intro impI)
  let ?p = "\<lparr>p_id = i, p_userData = v\<rparr>"
  let ?ok = "Inr \<lparr>uw_code = 200, uw_success = True, uw_id = i\<rparr>"
  assume "answers 2 w"
  then have a: "answers (Suc 1) w"
    by (simp add: numeral_2_eq_2)
  from updateUserWorkflow_answers [OF a, of i v]
  obtain w1 where first: "updateUserWorkflow ?p w = (?ok, w1)"
    and u1: "users w1 = updated v i (now w) (users w)" and a1: "answers 1 w1"
    by auto
  from a1 have "answers (Suc 0) (w1\<lparr>now := t\<rparr>)"
    by simp
  from updateUserWorkflow_answers [OF this, of i v]
  obtain w2 where second: "updateUserWorkflow ?p (w1\<lparr>now := t\<rparr>) = (?ok, w2)"
    and u2: "users w2 = updated v i t (users w1)"
    by auto
  from a have "answers (Suc 1) (w\<lparr>now := t\<rparr>)"
    by simp
  from updateUserWorkflow_answers [OF this, of i v]
  obtain w3 where later: "updateUserWorkflow ?p (w\<lparr>now := t\<rparr>) = (?ok, w3)"
    and u3: "users w3 = updated v i t (users w)"
    by auto
  have "users w2 =
      map (\<lambda>r. if live r \<and> u_id r = i \<and> \<not> no_values v then r\<lparr>u_updated_on := t\<rparr> else r)
        (users w1)"
    unfolding u2 u1 by (rule updated_stamp)
  moreover have "users w2 = users w3"
    unfolding u3 u2 u1 by (rule updated_twice)
  moreover have "no_values v \<longrightarrow> users w2 = users w"
    unfolding u2 u1 by (simp add: updated_def)
  ultimately show "fst (updateUserWorkflow ?p w) = ?ok \<and>
     fst (updateUserWorkflow ?p ((snd (updateUserWorkflow ?p w))\<lparr>now := t\<rparr>)) = ?ok \<and>
     users (snd (updateUserWorkflow ?p ((snd (updateUserWorkflow ?p w))\<lparr>now := t\<rparr>))) =
       map (\<lambda>r. if live r \<and> u_id r = i \<and> \<not> no_values v then r\<lparr>u_updated_on := t\<rparr> else r)
         (users (snd (updateUserWorkflow ?p w))) \<and>
     users (snd (updateUserWorkflow ?p ((snd (updateUserWorkflow ?p w))\<lparr>now := t\<rparr>))) =
       users (snd (updateUserWorkflow ?p (w\<lparr>now := t\<rparr>))) \<and>
     (no_values v \<longrightarrow>
        users (snd (updateUserWorkflow ?p ((snd (updateUserWorkflow ?p w))\<lparr>now := t\<rparr>))) =
          users w)"
    by (simp add: first second later)
qed

theorem update_twice_differs_in_updated_on_only_witness:
  "answers 2 two_users \<and> \<not> no_values rename \<and> no_values no_change \<and>
   fst (updateUserWorkflow \<lparr>p_id = 1, p_userData = rename\<rparr> two_users) =
     Inr \<lparr>uw_code = 200, uw_success = True, uw_id = 1\<rparr> \<and>
   fst (updateUserWorkflow \<lparr>p_id = 1, p_userData = rename\<rparr>
          ((snd (updateUserWorkflow \<lparr>p_id = 1, p_userData = rename\<rparr> two_users))\<lparr>now := 2000\<rparr>)) =
     Inr \<lparr>uw_code = 200, uw_success = True, uw_id = 1\<rparr> \<and>
   users (snd (updateUserWorkflow \<lparr>p_id = 1, p_userData = rename\<rparr>
                ((snd (updateUserWorkflow \<lparr>p_id = 1, p_userData = rename\<rparr> two_users))\<lparr>now := 2000\<rparr>))) =
     users (snd (updateUserWorkflow \<lparr>p_id = 1, p_userData = rename\<rparr> (two_users\<lparr>now := 2000\<rparr>))) \<and>
   users (snd (updateUserWorkflow \<lparr>p_id = 1, p_userData = no_change\<rparr>
                ((snd (updateUserWorkflow \<lparr>p_id = 1, p_userData = no_change\<rparr> two_users))\<lparr>now := 2000\<rparr>))) =
     users two_users"
proof -
  have a: "answers 2 two_users \<and> \<not> no_values rename \<and> no_values no_change"
    by (simp add: answers_def two_users_def no_values_def rename_def no_change_def)
  show ?thesis
    using a update_twice_differs_in_updated_on_only [of two_users 1 rename 2000]
      update_twice_differs_in_updated_on_only [of two_users 1 no_change 2000]
    by blast
qed

text \<open>
  C5, as stated, fails: after one application at time 1000 the updated row carries
  \<open>updated_on = 1000\<close>, after a second one at time 2000 it carries 2000.
\<close>

theorem update_twice_counterexample:
  "map u_updated_on (users (snd (updateUserWorkflow \<lparr>p_id = 1, p_userData = rename\<rparr> two_users))) =
     [20, 1000] \<and>
   map u_updated_on
     (users (snd (updateUserWorkflow \<lparr>p_id = 1, p_userData = rename\<rparr>
        ((snd (updateUserWorkflow \<lparr>p_id = 1, p_userData = rename\<rparr> two_users))\<lparr>now := 2000\<rparr>)))) =
     [20, 2000]"
  by (simp add: updateUserWorkflow_def Let_def await_def proxyActivities_def return_io_def
      updateUserActivity_def User_update_def no_values_def rename_def query_def two_users_def
      user_one_def user_two_def live_def assign_def numeral_2_eq_2)

text \<open>
  C6, as amended. \<open>getAllUsersActivity\<close> returns the live rows from \<open>offset\<close> on, at most
  \<open>limit\<close> of them, in the order of the table scan: no \<open>order\<close> is passed, so the page is
  ascending by id when the scan is. Over a store of two live rows that does not change in
  between, \<open>limit = 1, offset = 0\<close> and then \<open>limit = 1, offset = 1\<close> return the two rows,
  the first and then the second of the scan.
\<close>

theorem getAllUsers_pages_in_scan_order:
  "(answers 1 w \<longrightarrow>
      fst (getAllUsersActivity \<lparr>limit = Some l, offset = Some k\<rparr> w) =
        Inr (take l (drop k (filter live (users w))))) \<and>
   (answers 1 w \<and> sorted (map u_id (filter live (users w))) \<and>
    fst (getAllUsersActivity \<lparr>limit = Some l, offset = Some k\<rparr> w) = Inr page \<longrightarrow>
      sorted (map u_id page)) \<and>
   (answers 2 w \<and> filter live (users w) = [a, b] \<longrightarrow>
      fst (getAllUsersActivity \<lparr>limit = Some 1, offset = Some 0\<rparr> w) = Inr [a] \<and>
      fst (getAllUsersActivity \<lparr>limit = Some 1, offset = Some 1\<rparr>
             (snd (getAllUsersActivity \<lparr>limit = Some 1, offset = Some 0\<rparr> w))) = Inr [b])"
proof -
  have page: "fst (getAllUsersActivity \<lparr>limit = Some l', offset = Some k'\<rparr> w') =
        Inr (take l' (drop k' (filter live (users w'))))" if "answers (Suc 0) w'" for l' k' w'
    using that by (simp add: getAllUsersActivity_answers [of 0])
  have p1: "fst (getAllUsersActivity \<lparr>limit = Some l, offset = Some k\<rparr> w) =
        Inr (take l (drop k (filter live (users w))))" if "answers 1 w"
    using that by (simp add: page)
  have p2: "sorted (map u_id page)"
    if h: "answers 1 w \<and> sorted (map u_id (filter live (users w))) \<and>
      fst (getAllUsersActivity \<lparr>limit = Some l, offset = Some k\<rparr> w) = Inr page"
  proof -
    from h have "answers (Suc 0) w"
      by simp
    from page [OF this, of l k] h have "page = take l (drop k (filter live (users w)))"
      by simp
    moreover from h have "sorted (take l (drop k (map u_id (filter live (users w)))))"
      by (simp add: sorted_wrt_take sorted_wrt_drop)
    ultimately show ?thesis
      by (simp add: take_map drop_map)
  qed
  have p3: "fst (getAllUsersActivity \<lparr>limit = Some 1, offset = Some 0\<rparr> w) = Inr [a] \<and>
      fst (getAllUsersActivity \<lparr>limit = Some 1, offset = Some 1\<rparr>
             (snd (getAllUsersActivity \<lparr>limit = Some 1, offset = Some 0\<rparr> w))) = Inr [b]"
    if h: "answers 2 w \<and> filter live (users w) = [a, b]"
  proof -
    from h have a1: "answers (Suc 1) w"
      by (simp add: numeral_2_eq_2)
    then have a2: "answers (Suc 0) (w\<lparr>faults := tl (faults w)\<rparr>)"
      using answers_tl [of 1 w "w\<lparr>faults := tl (faults w)\<rparr>"] by simp
    show ?thesis
      using h getAllUsersActivity_answers [OF a2, of "\<lparr>limit = Some 1, offset = Some 1\<rparr>"]
      by (simp add: getAllUsersActivity_answers [OF a1])
  qed
  show ?thesis
    using p1 p2 p3 by blast
qed

theorem getAllUsers_pages_in_scan_order_witness:
  "answers 2 unordered \<and> answers 1 two_users \<and>
   filter live (users unordered) = [user_two, user_one] \<and>
   fst (getAllUsersActivity \<lparr>limit = Some 1, offset = Some 0\<rparr> unordered) = Inr [user_two] \<and>
   fst (getAllUsersActivity \<lparr>limit = Some 1, offset = Some 1\<rparr>
          (snd (getAllUsersActivity \<lparr>limit = Some 1, offset = Some 0\<rparr> unordered))) =
     Inr [user_one] \<and>
   sorted (map u_id (filter live (users two_users))) \<and>
   fst (getAllUsersActivity \<lparr>limit = Some 2, offset = Some 0\<rparr> two_users) =
     Inr [user_one, user_two] \<and>
   sorted (map u_id [user_one, user_two])"
proof -
  have a: "answers 2 unordered \<and> filter live (users unordered) = [user_two, user_one]"
    by (simp add: answers_def unordered_def two_users_def user_one_def user_two_def live_def)
  have b: "answers 1 two_users \<and> sorted (map u_id (filter live (users two_users)))"
    by (simp add: answers_def two_users_def user_one_def user_two_def live_def)
  have c: "fst (getAllUsersActivity \<lparr>limit = Some 2, offset = Some 0\<rparr> two_users) =
     Inr [user_one, user_two]"
    using b getAllUsers_pages_in_scan_order [of two_users 2 0]
    by (simp add: two_users_def user_one_def user_two_def live_def)
  show ?thesis
    using a b c
      getAllUsers_pages_in_scan_order [of unordered _ _ _ user_two user_one]
      getAllUsers_pages_in_scan_order [of two_users 2 0 "[user_one, user_two]"]
    by blast
qed

text \<open>
  C6, as stated, fails: on a table whose scan yields id 2 before id 1 the page is not
  ascending by id.
\<close>

theorem getAllUsers_order_counterexample:
  "fst (getAllUsersActivity \<lparr>limit = None, offset = None\<rparr> unordered) =
     Inr [user_two, user_one] \<and>
   map u_id [user_two, user_one] = [2, 1] \<and>
   \<not> sorted (map u_id [user_two, user_one])"
  by (simp add: getAllUsersActivity_def User_findAll_def query_def unordered_def two_users_def
      user_one_def user_two_def live_def)

text \<open>
  C8, as amended. For create, update and get the workflow id is
  \<open>"{operation}-{naturalKeyOrId}-{submissionTimestamp}"\<close>, with the operations
  \<open>create-user\<close>, \<open>update-user\<close>, \<open>get-user\<close> and the key the mobile number or the id. For
  the list operation it is \<open>"get-all-users-{submissionTimestamp}"\<close>: it holds no key and
  nothing else of the request.
\<close>

theorem workflow_ids:
  "started (snd (startCreateUser q ud w)) =
     started w @ [\<lparr>s_workflowType = ''createUserWorkflow'', s_taskQueue = q,
                   s_workflowId = spec_workflow_id ''create-user'' (mobile ud) (now w)\<rparr>] \<and>
   started (snd (startUpdateUser q \<lparr>p_id = i, p_userData = v\<rparr> w)) =
     started w @ [\<lparr>s_workflowType = ''updateUserWorkflow'', s_taskQueue = q,
                   s_workflowId = spec_workflow_id ''update-user'' (show_int i) (now w)\<rparr>] \<and>
   started (snd (startGetUser q i w)) =
     started w @ [\<lparr>s_workflowType = ''getUserWorkflow'', s_taskQueue = q,
                   s_workflowId = spec_workflow_id ''get-user'' (show_int i) (now w)\<rparr>] \<and>
   started (snd (startGetAllUsers q params w)) =
     started w @ [\<lparr>s_workflowType = ''getAllUsersWorkflow'', s_taskQueue = q,
                   s_workflowId = ''get-all-users-'' @ show_nat (now w)\<rparr>]"
  by (simp add: startCreateUser_def startUpdateUser_def startGetUser_def startGetAllUsers_def
      Let_def spec_workflow_id_def
      workflow_start_started [of "createUserWorkflow ud", OF createUserWorkflow_started]
      workflow_start_started [of "updateUserWorkflow p" for p, OF updateUserWorkflow_started]
      workflow_start_started [of "getUserWorkflow i", OF getUserWorkflow_started]
      workflow_start_started [of "getAllUsersWorkflow p" for p, OF getAllUsersWorkflow_started])

text \<open>
  C8, as stated, fails for the list operation: its workflow id is not of the form
  \<open>get-all-users-{key}-{timestamp}\<close>, and two different requests at the same time get the
  same id.
\<close>

theorem list_workflow_id_counterexample:
  "s_workflowId (last (started (snd (startGetAllUsers ''user-queue''
      \<lparr>limit = None, offset = None\<rparr> two_users)))) = ''get-all-users-1000'' \<and>
   s_workflowId (last (started (snd (startGetAllUsers ''user-queue''
      \<lparr>limit = Some 1, offset = Some 1\<rparr> two_users)))) = ''get-all-users-1000'' \<and>
   \<not> in_spec_format ''get-all-users'' 1000 ''get-all-users-1000''"
  by code_simp

end
